theory Spec2Isabelle
  imports Main
begin

section \<open>The machine of cpu.py\<close>

text \<open>
  The emulator keeps its memory and registers in Python lists of Python integers.
  Python integers are unbounded, so they are modelled as \<open>int\<close>; nothing in cpu.py
  masks a value to eight bits. A list subscript outside the list raises IndexError, a
  negative subscript counts from the end of the list, and a dictionary subscript with a
  missing key raises KeyError: each is a branch of the model.
\<close>

subsection \<open>Output, machine state, exceptions\<close>

text \<open>
  What the program writes to standard output, one value per call of \<open>print\<close>:
  \<open>Print_int n\<close> is \<^verbatim>\<open>print(n)\<close> of an integer (its decimal text),
  \<open>Print_unknown ir\<close> the line \<^verbatim>\<open>Did not understand that command: {IR}\<close>,
  \<open>Print_trace pc b0 b1 b2\<close> the head of the trace line (the program counter and the
  three bytes read at it, in hexadecimal), \<open>Print_reg v\<close> one register of the trace
  line, and \<open>Print_None\<close> the text \<^verbatim>\<open>None\<close> of \<^verbatim>\<open>print(self.trace())\<close>.
\<close>

datatype event =
    Print_int int
  | Print_unknown int
  | Print_trace int int int int
  | Print_reg int
  | Print_None

text \<open>
  The fields of class CPU. \<open>operand_a\<close> and \<open>operand_b\<close> are None between
  construction and the first fetch; \<open>run\<close> assigns both before any routine reads
  them (lemma \<open>cycle_ignores_operands\<close> below), so they have type \<open>int\<close> here.
  \<open>stdout\<close> is the text printed so far.
\<close>

record cpu =
  ram :: "int list"
  reg :: "int list"
  operand_a :: int
  operand_b :: int
  PC :: int
  MAR :: "int option"
  MDR :: "int option"
  FL :: int
  stdout :: "event list"

text \<open>
  The ways a call can end without returning: an exception nobody catches (cpu.py has
  no handler around the loop), or \<^verbatim>\<open>sys.exit\<close>, whose \<open>SystemExit\<close> carries the exit
  status (None for \<^verbatim>\<open>sys.exit()\<close>, which the interpreter reports as status 0) and,
  here, the machine as it was left.
\<close>

datatype stop =
    IndexError
  | KeyError_opcode int
  | KeyError_name string
  | Unsupported_ALU_operation
  | SystemExit "int option" cpu

fun bindE :: "stop + 'a \<Rightarrow> ('a \<Rightarrow> stop + 'b) \<Rightarrow> stop + 'b" where
  "bindE (Inl e) f = Inl e"
| "bindE (Inr v) f = f v"

subsection \<open>Python list subscripts\<close>

definition norm_index :: "'a list \<Rightarrow> int \<Rightarrow> nat option" where
  "norm_index xs i =
     (let n = int (length xs); j = (if i < 0 then i + n else i)
      in if 0 \<le> j \<and> j < n then Some (nat j) else None)"

definition getitem :: "'a list \<Rightarrow> int \<Rightarrow> stop + 'a" where
  "getitem xs i = (case norm_index xs i of None \<Rightarrow> Inl IndexError | Some k \<Rightarrow> Inr (xs ! k))"

definition setitem :: "'a list \<Rightarrow> int \<Rightarrow> 'a \<Rightarrow> stop + 'a list" where
  "setitem xs i v = (case norm_index xs i of None \<Rightarrow> Inl IndexError | Some k \<Rightarrow> Inr (xs[k := v]))"

subsection \<open>Operation tables and constants\<close>

definition binary_operation :: "int \<Rightarrow> string option" where
  "binary_operation = map_of
     [(1, ''HLT''), (130, ''LDI''), (71, ''PRN''), (69, ''PUSH''), (70, ''POP''),
      (80, ''CALL''), (17, ''RET''), (84, ''JMP''), (85, ''JEQ''), (86, ''JNE'')]"

definition math_operation :: "string \<Rightarrow> int option" where
  "math_operation = map_of [(''ADD'', 160), (''SUB'', 161), (''MUL'', 162), (''CMP'', 167)]"

definition SP :: int where
  "SP = 7"

text \<open>
  The machine the constructor builds. The two operand fields are None there; they are 0
  here. The difference shows only when a routine is called on the machine before any
  fetch (Python raises TypeError on the None subscript): \<open>run\<close> never does that.
\<close>

definition CPU_init :: cpu where
  "CPU_init =
     \<lparr>ram = replicate 256 0, reg = (replicate 8 0)[7 := 244], operand_a = 0, operand_b = 0,
      PC = 0, MAR = None, MDR = None, FL = 0, stdout = []\<rparr>"

subsection \<open>The instruction routines\<close>

definition CALL :: "cpu \<Rightarrow> stop + cpu" where
  "CALL s =
     bindE (getitem (reg s) SP) (\<lambda>sp.
     bindE (setitem (reg s) SP (sp - 1)) (\<lambda>r1.
     let instruction_address = PC s + 2 in
     bindE (getitem r1 SP) (\<lambda>sp1.
     bindE (setitem (ram s) sp1 instruction_address) (\<lambda>m1.
     bindE (getitem r1 (operand_a s)) (\<lambda>target.
     Inr (s\<lparr>reg := r1, ram := m1, PC := target\<rparr>))))))"

definition RET :: "cpu \<Rightarrow> stop + cpu" where
  "RET s =
     bindE (getitem (reg s) SP) (\<lambda>sp.
     bindE (getitem (ram s) sp) (\<lambda>v.
     bindE (setitem (reg s) SP (sp + 1)) (\<lambda>r1.
     Inr (s\<lparr>PC := v, reg := r1\<rparr>))))"

definition JMP :: "cpu \<Rightarrow> stop + cpu" where
  "JMP s = bindE (getitem (reg s) (operand_a s)) (\<lambda>address. Inr (s\<lparr>PC := address\<rparr>))"

definition JEQ :: "cpu \<Rightarrow> stop + cpu" where
  "JEQ s =
     bindE (getitem (reg s) (operand_a s)) (\<lambda>address.
     if FL s = 1 then Inr (s\<lparr>PC := address\<rparr>) else Inr (s\<lparr>PC := PC s + 2\<rparr>))"

definition JNE :: "cpu \<Rightarrow> stop + cpu" where
  "JNE s =
     bindE (getitem (reg s) (operand_a s)) (\<lambda>address.
     if FL s = 0 then Inr (s\<lparr>PC := address\<rparr>) else Inr (s\<lparr>PC := PC s + 2\<rparr>))"

definition HALT :: "cpu \<Rightarrow> stop + cpu" where
  "HALT s = Inl (SystemExit None s)"

definition LOAD :: "cpu \<Rightarrow> stop + cpu" where
  "LOAD s = bindE (setitem (reg s) (operand_a s) (operand_b s)) (\<lambda>r1. Inr (s\<lparr>reg := r1\<rparr>))"

definition PRINT :: "cpu \<Rightarrow> stop + cpu" where
  "PRINT s =
     bindE (getitem (reg s) (operand_a s)) (\<lambda>v. Inr (s\<lparr>stdout := stdout s @ [Print_int v]\<rparr>))"

definition PUSH :: "cpu \<Rightarrow> stop + cpu" where
  "PUSH s =
     bindE (getitem (reg s) SP) (\<lambda>sp.
     bindE (setitem (reg s) SP (sp - 1)) (\<lambda>r1.
     bindE (getitem r1 (operand_a s)) (\<lambda>v.
     bindE (getitem r1 SP) (\<lambda>sp1.
     bindE (setitem (ram s) sp1 v) (\<lambda>m1.
     Inr (s\<lparr>reg := r1, ram := m1\<rparr>))))))"

definition POP :: "cpu \<Rightarrow> stop + cpu" where
  "POP s =
     bindE (getitem (reg s) SP) (\<lambda>sp.
     bindE (getitem (ram s) sp) (\<lambda>v.
     let register = operand_a s in
     bindE (setitem (reg s) register v) (\<lambda>r1.
     bindE (getitem r1 SP) (\<lambda>sp1.
     bindE (setitem r1 SP (sp1 + 1)) (\<lambda>r2.
     Inr (s\<lparr>reg := r2\<rparr>))))))"

text \<open>The branch table built by the constructor.\<close>

definition instructions :: "string \<Rightarrow> (cpu \<Rightarrow> stop + cpu) option" where
  "instructions = map_of
     [(''HLT'', HALT), (''LDI'', LOAD), (''PRN'', PRINT), (''PUSH'', PUSH), (''POP'', POP),
      (''CALL'', CALL), (''RET'', RET), (''JMP'', JMP), (''JEQ'', JEQ), (''JNE'', JNE)]"

subsection \<open>Memory access\<close>

text \<open>\<open>ram_read\<close> stores the address before it subscripts the list, and returns the byte.\<close>

definition ram_read :: "int \<Rightarrow> cpu \<Rightarrow> stop + (int \<times> cpu)" where
  "ram_read address s =
     bindE (getitem (ram s) address) (\<lambda>v. Inr (v, s\<lparr>MAR := Some address, MDR := Some v\<rparr>))"

definition ram_write :: "int \<Rightarrow> int \<Rightarrow> cpu \<Rightarrow> stop + cpu" where
  "ram_write v address s =
     bindE (setitem (ram s) address v) (\<lambda>m1.
     Inr (s\<lparr>MAR := Some address, MDR := Some v, ram := m1\<rparr>))"

text \<open>
  The loop of \<open>load\<close> over the values already parsed from the program file: each goes
  to the next address, from 0 on.
\<close>

fun load_words :: "int list \<Rightarrow> int \<Rightarrow> int list \<Rightarrow> stop + int list" where
  "load_words [] address m = Inr m"
| "load_words (num # rest) address m =
     bindE (setitem m address num) (\<lambda>m1. load_words rest (address + 1) m1)"

definition load :: "int list \<Rightarrow> cpu \<Rightarrow> stop + cpu" where
  "load program s = bindE (load_words program 0 (ram s)) (\<lambda>m1. Inr (s\<lparr>ram := m1\<rparr>))"

subsection \<open>The arithmetic-logic unit\<close>

definition ALU :: "int \<Rightarrow> int \<Rightarrow> int \<Rightarrow> cpu \<Rightarrow> stop + cpu" where
  "ALU op reg_a reg_b s =
     (if Some op = math_operation ''ADD'' then
        bindE (getitem (reg s) reg_a) (\<lambda>x.
        bindE (getitem (reg s) reg_b) (\<lambda>y.
        bindE (setitem (reg s) reg_a (x + y)) (\<lambda>r1. Inr (s\<lparr>reg := r1\<rparr>))))
      else if Some op = math_operation ''SUB'' then
        bindE (getitem (reg s) reg_a) (\<lambda>x.
        bindE (getitem (reg s) reg_b) (\<lambda>y.
        bindE (setitem (reg s) reg_a (x - y)) (\<lambda>r1. Inr (s\<lparr>reg := r1\<rparr>))))
      else if Some op = math_operation ''MUL'' then
        bindE (getitem (reg s) reg_a) (\<lambda>x.
        bindE (getitem (reg s) reg_b) (\<lambda>y.
        bindE (setitem (reg s) reg_a (x * y)) (\<lambda>r1. Inr (s\<lparr>reg := r1\<rparr>))))
      else if Some op = math_operation ''CMP'' then
        bindE (getitem (reg s) (operand_a s)) (\<lambda>valueA.
        bindE (getitem (reg s) (operand_b s)) (\<lambda>valueB.
        let fl1 = (if valueA = valueB then 1 else FL s);
            fl2 = (if valueA < valueB then 4 else fl1);
            fl3 = (if valueA > valueB then 2 else fl2)
        in Inr (s\<lparr>FL := fl3, stdout := stdout s @ [Print_int fl3]\<rparr>)))
      else Inl Unsupported_ALU_operation)"

subsection \<open>Decoding and the execution loop\<close>

text \<open>
  The two tests on the opcode, as cpu.py writes them. In Python \<^verbatim>\<open>%\<close> binds tighter
  than \<^verbatim>\<open>>>\<close>, so \<^verbatim>\<open>(IR << 2) % 255 >> 7\<close> is \<^verbatim>\<open>((IR << 2) % 255) >> 7\<close>; on
  integers \<^verbatim>\<open><<\<close> multiplies by a power of two, \<^verbatim>\<open>>>\<close> divides by one and rounds
  down, and \<^verbatim>\<open>%\<close> takes the sign of the divisor, as \<open>push_bit\<close>, \<open>drop_bit\<close> and
  \<open>mod\<close> do.
\<close>

definition alu_test :: "int \<Rightarrow> int" where
  "alu_test IR = drop_bit 7 (push_bit 2 IR mod 255)"

definition pc_test :: "int \<Rightarrow> int" where
  "pc_test IR = drop_bit 7 (push_bit 3 IR mod 255)"

definition move_PC :: "int \<Rightarrow> cpu \<Rightarrow> cpu" where
  "move_PC IR s = (if pc_test IR \<noteq> 1 then s\<lparr>PC := PC s + (drop_bit 6 IR + 1)\<rparr> else s)"

fun trace_regs :: "int list \<Rightarrow> cpu \<Rightarrow> stop + cpu" where
  "trace_regs [] s = Inr s"
| "trace_regs (i # is) s =
     bindE (getitem (reg s) i) (\<lambda>v. trace_regs is (s\<lparr>stdout := stdout s @ [Print_reg v]\<rparr>))"

definition trace :: "cpu \<Rightarrow> stop + cpu" where
  "trace s =
     bindE (ram_read (PC s) s) (\<lambda>(b0, s1).
     bindE (ram_read (PC s1 + 1) s1) (\<lambda>(b1, s2).
     bindE (ram_read (PC s2 + 2) s2) (\<lambda>(b2, s3).
     trace_regs [0, 1, 2, 3, 4, 5, 6, 7]
       (s3\<lparr>stdout := stdout s3 @ [Print_trace (PC s) b0 b1 b2]\<rparr>))))"

text \<open>The three reads that open every pass of the loop.\<close>

definition fetch :: "cpu \<Rightarrow> stop + (int \<times> cpu)" where
  "fetch s =
     bindE (ram_read (PC s) s) (\<lambda>(IR, s1).
     bindE (ram_read (PC s1 + 1) s1) (\<lambda>(a, s2).
     bindE (ram_read (PC s2 + 2) (s2\<lparr>operand_a := a\<rparr>)) (\<lambda>(b, s3).
     Inr (IR, s3\<lparr>operand_b := b\<rparr>))))"

text \<open>One pass of the body of \<^verbatim>\<open>while True\<close>.\<close>

definition cycle :: "cpu \<Rightarrow> stop + cpu" where
  "cycle s =
     bindE (fetch s) (\<lambda>(IR, s1).
     if alu_test IR = 1 then
       bindE (ALU IR (operand_a s1) (operand_b s1) s1) (\<lambda>s2. Inr (move_PC IR s2))
     else if alu_test IR = 0 then
       (case binary_operation IR of
          None \<Rightarrow> Inl (KeyError_opcode IR)
        | Some name \<Rightarrow>
            (case instructions name of
               None \<Rightarrow> Inl (KeyError_name name)
             | Some routine \<Rightarrow> bindE (routine s1) (\<lambda>s2. Inr (move_PC IR s2))))
     else
       bindE (trace (s1\<lparr>stdout := stdout s1 @ [Print_unknown IR]\<rparr>)) (\<lambda>s2.
       Inl (SystemExit (Some 1) (s2\<lparr>stdout := stdout s2 @ [Print_None]\<rparr>))))"

text \<open>
  The loop has no exit of its own: it ends only when a pass stops. \<open>run s\<close> is
  \<open>None\<close> when it never does, and otherwise the stop together with the machine as the
  last pass found it.
\<close>

partial_function (option) run :: "cpu \<Rightarrow> (stop \<times> cpu) option" where
  "run s = (case cycle s of Inl e \<Rightarrow> Some (e, s) | Inr s1 \<Rightarrow> run s1)"

declare run.simps [code]

section \<open>Properties\<close>

subsection \<open>Subscripts\<close>

lemma norm_index_Some_iff:
  "norm_index xs i = Some k \<longleftrightarrow>
     - int (length xs) \<le> i \<and> i < int (length xs) \<and>
     k = nat (if i < 0 then i + int (length xs) else i)"
  by (auto simp: norm_index_def Let_def)

lemma norm_index_less: "norm_index xs i = Some k \<Longrightarrow> k < length xs"
  by (auto simp: norm_index_Some_iff)

lemma norm_index_update: "norm_index (xs[k := v]) i = norm_index xs i"
  by (simp add: norm_index_def)

lemma norm_index_SP: "length xs = 8 \<Longrightarrow> norm_index xs SP = Some 7"
  by (simp add: norm_index_def SP_def)

lemma getitem_Inr_iff: "getitem xs i = Inr v \<longleftrightarrow> (\<exists>k. norm_index xs i = Some k \<and> v = xs ! k)"
  by (auto simp: getitem_def split: option.splits)

lemma getitem_stop: "getitem xs i = Inl e \<Longrightarrow> e = IndexError"
  by (auto simp: getitem_def split: option.splits)

lemma getitem_at: "norm_index xs i = Some k \<Longrightarrow> getitem xs i = Inr (xs ! k)"
  by (simp add: getitem_def)

lemma setitem_at: "norm_index xs i = Some k \<Longrightarrow> setitem xs i v = Inr (xs[k := v])"
  by (simp add: setitem_def)

lemma setitem_length: "setitem xs i v = Inr ys \<Longrightarrow> length ys = length xs"
  by (auto simp: setitem_def split: option.splits)

lemma getitem_update:
  assumes "k < length xs" and "norm_index xs j = Some l"
  shows "getitem (xs[k := v]) j = Inr (if l = k then v else xs ! l)"
proof -
  have "norm_index (xs[k := v]) j = Some l"
    using assms(2) by (simp add: norm_index_update)
  then have "getitem (xs[k := v]) j = Inr ((xs[k := v]) ! l)"
    by (rule getitem_at)
  moreover have "l < length xs"
    using assms(2) by (rule norm_index_less)
  ultimately show ?thesis
    using assms(1) by (simp add: nth_list_update)
qed

lemma getitem_after_setitem:
  assumes "getitem xs i = Inr x"
  shows "\<exists>ys. setitem xs i v = Inr ys \<and> getitem ys i = Inr v"
proof -
  from assms obtain k where k: "norm_index xs i = Some k"
    by (auto simp: getitem_Inr_iff)
  then have "k < length xs"
    by (rule norm_index_less)
  then have "getitem (xs[k := v]) i = Inr v"
    using k by (simp add: getitem_update)
  then show ?thesis
    using k by (simp add: setitem_at)
qed

subsection \<open>Decoding\<close>

lemma math_ops:
  "math_operation ''ADD'' = Some 160" "math_operation ''SUB'' = Some 161"
  "math_operation ''MUL'' = Some 162" "math_operation ''CMP'' = Some 167"
  by (simp_all add: math_operation_def)

text \<open>Both tests give 0 or 1 on every integer, so the loop's last branch is never taken.\<close>

lemma alu_test_cases: "alu_test IR = 0 \<or> alu_test IR = 1"
proof -
  have "0 \<le> push_bit 2 IR mod 255" and "push_bit 2 IR mod 255 < 255"
    by simp_all
  then have "0 \<le> push_bit 2 IR mod 255 div 128 \<and> push_bit 2 IR mod 255 div 128 < 2"
    by linarith
  then show ?thesis
    unfolding alu_test_def drop_bit_eq_div by auto
qed

text \<open>On the bytes 0 to 254 the two tests read bit 5 and bit 4 of the opcode.\<close>

lemma alu_test_bytes: "list_all (\<lambda>i. (alu_test i = 1) = bit i 5) [0..254]"
  by code_simp

lemma pc_test_bytes: "list_all (\<lambda>i. (pc_test i = 1) = bit i 4) [0..254]"
  by code_simp

lemma alu_test_bit: "0 \<le> IR \<Longrightarrow> IR < 255 \<Longrightarrow> (alu_test IR = 1) = bit IR 5"
  using alu_test_bytes by (simp add: list_all_iff)

lemma pc_test_bit: "0 \<le> IR \<Longrightarrow> IR < 255 \<Longrightarrow> (pc_test IR = 1) = bit IR 4"
  using pc_test_bytes by (simp add: list_all_iff)

lemma decode_table:
  "alu_test 1 = 0" "alu_test 130 = 0" "alu_test 71 = 0" "alu_test 69 = 0" "alu_test 70 = 0"
  "alu_test 80 = 0" "alu_test 17 = 0" "alu_test 84 = 0" "alu_test 85 = 0" "alu_test 86 = 0"
  "alu_test 160 = 1" "alu_test 161 = 1" "alu_test 162 = 1" "alu_test 167 = 1"
  "pc_test 1 = 0" "pc_test 130 = 0" "pc_test 71 = 0" "pc_test 69 = 0" "pc_test 70 = 0"
  "pc_test 80 = 1" "pc_test 17 = 1" "pc_test 84 = 1" "pc_test 85 = 1" "pc_test 86 = 1"
  "pc_test 160 = 0" "pc_test 161 = 0" "pc_test 162 = 0" "pc_test 167 = 0"
  by (simp_all add: alu_test_def pc_test_def)

subsection \<open>One pass of the loop\<close>

lemma fetch_Inr:
  assumes "getitem (ram s) (PC s) = Inr IR" and "getitem (ram s) (PC s + 1) = Inr a"
    and "getitem (ram s) (PC s + 2) = Inr b"
  shows "fetch s =
    Inr (IR, s\<lparr>operand_a := a, operand_b := b, MAR := Some (PC s + 2), MDR := Some b\<rparr>)"
  using assms by (simp add: fetch_def ram_read_def)

lemma fetch_Inr_iff:
  "(\<exists>r. fetch s = Inr r) \<longleftrightarrow>
   (\<exists>IR a b. getitem (ram s) (PC s) = Inr IR \<and> getitem (ram s) (PC s + 1) = Inr a \<and>
      getitem (ram s) (PC s + 2) = Inr b)"
  by (cases "getitem (ram s) (PC s)"; cases "getitem (ram s) (PC s + 1)";
      cases "getitem (ram s) (PC s + 2)") (simp_all add: fetch_def ram_read_def)

lemma fetch_frame:
  "fetch t = Inr (IR, s) \<Longrightarrow>
   ram s = ram t \<and> reg s = reg t \<and> PC s = PC t \<and> FL s = FL t \<and> stdout s = stdout t \<and>
   getitem (ram t) (PC t) = Inr IR \<and> getitem (ram t) (PC t + 1) = Inr (operand_a s) \<and>
   getitem (ram t) (PC t + 2) = Inr (operand_b s)"
  by (cases "getitem (ram t) (PC t)"; cases "getitem (ram t) (PC t + 1)";
      cases "getitem (ram t) (PC t + 2)") (auto simp add: fetch_def ram_read_def)

text \<open>The operand fields a pass starts with are overwritten before anything reads them.\<close>

lemma cycle_ignores_operands: "cycle (s\<lparr>operand_a := x, operand_b := y\<rparr>) = cycle s"
proof -
  have "fetch (s\<lparr>operand_a := x, operand_b := y\<rparr>) = fetch s"
    by (cases "getitem (ram s) (PC s)"; cases "getitem (ram s) (PC s + 1)";
        cases "getitem (ram s) (PC s + 2)") (simp_all add: fetch_def ram_read_def)
  then show ?thesis
    by (simp add: cycle_def)
qed

lemma cycle_fetch_fails: "fetch t = Inl e \<Longrightarrow> cycle t = Inl e"
  by (simp add: cycle_def)

lemma cycle_ALU:
  "fetch t = Inr (IR, s) \<Longrightarrow> alu_test IR = 1 \<Longrightarrow>
   cycle t = bindE (ALU IR (operand_a s) (operand_b s) s) (\<lambda>s2. Inr (move_PC IR s2))"
  by (simp add: cycle_def)

lemma cycle_dispatch:
  "fetch t = Inr (IR, s) \<Longrightarrow> alu_test IR = 0 \<Longrightarrow> binary_operation IR = Some name \<Longrightarrow>
   instructions name = Some routine \<Longrightarrow>
   cycle t = bindE (routine s) (\<lambda>s2. Inr (move_PC IR s2))"
  by (simp add: cycle_def)

text \<open>
  An opcode that the first test does not send to the ALU is looked up in
  \<open>binary_operation\<close> at once: when it is not a key, the pass ends in KeyError.
\<close>

lemma cycle_unknown:
  "fetch t = Inr (IR, s) \<Longrightarrow> alu_test IR \<noteq> 1 \<Longrightarrow> binary_operation IR = None \<Longrightarrow>
   cycle t = Inl (KeyError_opcode IR)"
  using alu_test_cases [of IR] by (auto simp add: cycle_def)

lemma run_stops: "cycle s = Inl e \<Longrightarrow> run s = Some (e, s)"
  by (subst run.simps) simp

lemma run_continues: "cycle s = Inr s1 \<Longrightarrow> run s = run s1"
  by (subst run.simps) simp

subsection \<open>The arithmetic-logic unit\<close>

text \<open>
  Claim C3, as amended. ADD, SUB and MUL leave in the destination register the exact
  integer sum, difference and product of the two registers: the registers hold
  unbounded integers and nothing reduces the result modulo 256. \<open>x\<close> and \<open>y\<close> are the
  values of the registers named by \<open>ra\<close> and \<open>rb\<close> before the operation.
\<close>

theorem ALU_exact_arithmetic:
  assumes "getitem (reg s) ra = Inr x" and "getitem (reg s) rb = Inr y"
  shows "(\<exists>s'. ALU 160 ra rb s = Inr s' \<and> getitem (reg s') ra = Inr (x + y)) \<and>
         (\<exists>s'. ALU 161 ra rb s = Inr s' \<and> getitem (reg s') ra = Inr (x - y)) \<and>
         (\<exists>s'. ALU 162 ra rb s = Inr s' \<and> getitem (reg s') ra = Inr (x * y))"
proof -
  have upd: "\<exists>ys. setitem (reg s) ra v = Inr ys \<and> getitem ys ra = Inr v" for v
    using assms(1) by (rule getitem_after_setitem)
  have "\<exists>s'. ALU 160 ra rb s = Inr s' \<and> getitem (reg s') ra = Inr (x + y)"
    using upd [of "x + y"] assms by (auto simp add: ALU_def math_ops)
  moreover have "\<exists>s'. ALU 161 ra rb s = Inr s' \<and> getitem (reg s') ra = Inr (x - y)"
    using upd [of "x - y"] assms by (auto simp add: ALU_def math_ops)
  moreover have "\<exists>s'. ALU 162 ra rb s = Inr s' \<and> getitem (reg s') ra = Inr (x * y)"
    using upd [of "x * y"] assms by (auto simp add: ALU_def math_ops)
  ultimately show ?thesis
    by blast
qed

theorem ALU_exact_arithmetic_witness:
  "(\<exists>s'. ALU 160 0 1 (CPU_init\<lparr>reg := [200, 100, 0, 0, 0, 0, 0, 244]\<rparr>) = Inr s' \<and>
      getitem (reg s') 0 = Inr 300) \<and>
   (\<exists>s'. ALU 161 0 1 (CPU_init\<lparr>reg := [200, 100, 0, 0, 0, 0, 0, 244]\<rparr>) = Inr s' \<and>
      getitem (reg s') 0 = Inr 100) \<and>
   (\<exists>s'. ALU 162 0 1 (CPU_init\<lparr>reg := [200, 100, 0, 0, 0, 0, 0, 244]\<rparr>) = Inr s' \<and>
      getitem (reg s') 0 = Inr 20000)"
  using ALU_exact_arithmetic [of "CPU_init\<lparr>reg := [200, 100, 0, 0, 0, 0, 0, 244]\<rparr>" 0 200 1 100]
  by (simp add: getitem_def norm_index_def)

text \<open>
  Claim C3 as stated fails: with 255 in register 0 and 1 in register 1, ADD leaves 256
  in register 0, where reduction modulo 256 would leave 0.
\<close>

theorem ADD_255_1_counterexample:
  "bindE (ALU 160 0 1 (CPU_init\<lparr>reg := [255, 1, 0, 0, 0, 0, 0, 244]\<rparr>))
     (\<lambda>s'. getitem (reg s') 0) = Inr 256
   \<and> (255 + 1) mod 256 \<noteq> (256 :: int)"
  by (simp add: ALU_def math_ops getitem_def setitem_def norm_index_def)

text \<open>
  Claim C7. After CMP the flags byte is 1 (Equal) when the two register values are
  equal, otherwise 4 (Less-than) when the first is less than the second, otherwise 2
  (Greater-than): exactly one of the three bits is set, and the value does not depend
  on the flags before. \<open>a\<close> and \<open>b\<close> are the values of the registers named by the two
  operands; CMP reads the operand fields, which \<open>run\<close> also passes as \<open>ra\<close> and \<open>rb\<close>.
\<close>

theorem CMP_sets_exactly_one_flag:
  assumes "getitem (reg s) (operand_a s) = Inr a" and "getitem (reg s) (operand_b s) = Inr b"
  shows "\<exists>s'. ALU 167 ra rb s = Inr s' \<and>
           FL s' = (if a = b then 1 else if a < b then 4 else 2) \<and>
           (bit (FL s') 0 \<longleftrightarrow> a = b) \<and> (bit (FL s') 2 \<longleftrightarrow> a < b) \<and>
           (bit (FL s') 1 \<longleftrightarrow> b < a)"
  using assms by (auto simp: ALU_def math_ops Let_def bit_iff_odd)

theorem CMP_sets_exactly_one_flag_witness:
  "\<exists>s'. ALU 167 0 1 (CPU_init\<lparr>reg := [3, 9, 0, 0, 0, 0, 0, 244], operand_b := 1, FL := 3\<rparr>) = Inr s' \<and>
     FL s' = 4 \<and> \<not> bit (FL s') 0 \<and> bit (FL s') 2 \<and> \<not> bit (FL s') 1"
  using CMP_sets_exactly_one_flag
    [of "CPU_init\<lparr>reg := [3, 9, 0, 0, 0, 0, 0, 244], operand_b := 1, FL := 3\<rparr>" 3 9 0 1]
  by (simp add: getitem_def norm_index_def CPU_init_def)

text \<open>
  Claim C8. An opcode other than ADD, SUB, MUL and CMP makes the ALU raise its
  "Unsupported ALU operation" exception; when the loop has routed such an opcode to the
  ALU, the pass ends with that exception and so does the run: nothing catches it.
\<close>

theorem ALU_unsupported_operation_aborts:
  assumes "op \<notin> {160, 161, 162, 167}"
  shows "ALU op ra rb s = Inl Unsupported_ALU_operation \<and>
         (\<forall>t. fetch t = Inr (op, s) \<and> alu_test op = 1 \<longrightarrow>
            cycle t = Inl Unsupported_ALU_operation \<and>
            run t = Some (Unsupported_ALU_operation, t))"
proof -
  have a: "ALU op ra rb s = Inl Unsupported_ALU_operation" for ra rb
    using assms by (simp add: ALU_def math_ops)
  have "cycle t = Inl Unsupported_ALU_operation"
    if "fetch t = Inr (op, s)" and "alu_test op = 1" for t
    using that by (simp add: cycle_ALU a)
  then show ?thesis
    using a by (auto intro: run_stops)
qed

theorem ALU_unsupported_operation_aborts_witness:
  "ALU 163 0 0 (CPU_init\<lparr>ram := 163 # replicate 255 0, MAR := Some 2, MDR := Some 0\<rparr>) =
     Inl Unsupported_ALU_operation \<and>
   cycle (CPU_init\<lparr>ram := 163 # replicate 255 0\<rparr>) = Inl Unsupported_ALU_operation \<and>
   run (CPU_init\<lparr>ram := 163 # replicate 255 0\<rparr>) =
     Some (Unsupported_ALU_operation, CPU_init\<lparr>ram := 163 # replicate 255 0\<rparr>)"
proof -
  have f: "fetch (CPU_init\<lparr>ram := 163 # replicate 255 0\<rparr>) =
      Inr (163, CPU_init\<lparr>ram := 163 # replicate 255 0, MAR := Some 2, MDR := Some 0\<rparr>)"
    by code_simp
  have t: "alu_test 163 = 1"
    by (simp add: alu_test_def)
  show ?thesis
    using ALU_unsupported_operation_aborts
      [of 163 0 0 "CPU_init\<lparr>ram := 163 # replicate 255 0, MAR := Some 2, MDR := Some 0\<rparr>"] f t
    by simp
qed

subsection \<open>The byte 255\<close>

text \<open>
  Claim C4 (not met by the code). The claim: on every byte the first test is bit 5 of
  the opcode and the second is bit 4. The code reduces modulo 255, not 256: the tests
  agree with the bits on 0 to 254 (\<open>alu_test_bit\<close>, \<open>pc_test_bit\<close>) and differ on 255,
  whose bits 5 and 4 are set while both tests give 0. A memory whose first byte is 255
  is therefore not routed to the ALU: the pass ends in KeyError.
\<close>

theorem decode_tests_differ_at_255:
  "alu_test 255 = 0 \<and> bit (255 :: int) 5 \<and> pc_test 255 = 0 \<and> bit (255 :: int) 4 \<and>
   cycle (CPU_init\<lparr>ram := 255 # replicate 255 0\<rparr>) = Inl (KeyError_opcode 255)"
proof -
  have "cycle (CPU_init\<lparr>ram := 255 # replicate 255 0\<rparr>) = Inl (KeyError_opcode 255)"
    by code_simp
  then show ?thesis
    by (simp add: alu_test_def pc_test_def)
qed

subsection \<open>The fetch\<close>

lemma fetch_Inl: "fetch s = Inl e \<Longrightarrow> e = IndexError"
  by (cases "getitem (ram s) (PC s)"; cases "getitem (ram s) (PC s + 1)";
      cases "getitem (ram s) (PC s + 2)")
     (auto simp add: fetch_def ram_read_def dest: getitem_stop)

lemma getitem_ok_iff:
  "(\<exists>v. getitem xs i = Inr v) \<longleftrightarrow> - int (length xs) \<le> i \<and> i < int (length xs)"
  by (auto simp: getitem_Inr_iff norm_index_Some_iff)

text \<open>
  Claim C9, as amended. Every pass reads memory at PC, PC + 1 and PC + 2 before it
  looks at the opcode: the fetch succeeds exactly when all three subscripts do, and a
  pass whose fetch fails ends in IndexError whatever the opcode is. On a memory of 256
  cells the three reads succeed exactly when \<open>-256 \<le> PC\<close> and \<open>PC \<le> 253\<close>: Python takes
  a negative subscript from the end of the list, down to \<open>-256\<close>. At 254 and 255 the
  fetch, the pass and the run end in IndexError; the address is not wrapped or clamped.
\<close>

theorem fetch_reads_three_bytes:
  assumes "length (ram s) = 256"
  shows "((\<exists>r. fetch s = Inr r) \<longleftrightarrow>
            (\<exists>IR a b. getitem (ram s) (PC s) = Inr IR \<and> getitem (ram s) (PC s + 1) = Inr a \<and>
               getitem (ram s) (PC s + 2) = Inr b)) \<and>
         ((\<exists>r. fetch s = Inr r) \<or>
            fetch s = Inl IndexError \<and> cycle s = Inl IndexError \<and>
            run s = Some (IndexError, s)) \<and>
         ((\<exists>r. fetch s = Inr r) \<longleftrightarrow> - 256 \<le> PC s \<and> PC s \<le> 253) \<and>
         (PC s = 254 \<or> PC s = 255 \<longrightarrow>
            fetch s = Inl IndexError \<and> cycle s = Inl IndexError \<and> run s = Some (IndexError, s))"
proof -
  have three: "(\<exists>r. fetch s = Inr r) \<longleftrightarrow>
      (\<exists>IR. getitem (ram s) (PC s) = Inr IR) \<and> (\<exists>a. getitem (ram s) (PC s + 1) = Inr a) \<and>
      (\<exists>b. getitem (ram s) (PC s + 2) = Inr b)"
    unfolding fetch_Inr_iff by blast
  have bound: "(\<exists>r. fetch s = Inr r) \<longleftrightarrow> - 256 \<le> PC s \<and> PC s \<le> 253"
    unfolding three getitem_ok_iff using assms by auto
  have fails: "fetch s = Inl IndexError \<and> cycle s = Inl IndexError \<and>
      run s = Some (IndexError, s)" if "\<not> (\<exists>r. fetch s = Inr r)"
  proof (cases "fetch s")
    case (Inl e)
    then have "fetch s = Inl IndexError"
      using fetch_Inl by blast
    then show ?thesis
      by (simp add: cycle_fetch_fails run_stops)
  next
    case (Inr r)
    then show ?thesis
      using that by blast
  qed
  have "fetch s = Inl IndexError \<and> cycle s = Inl IndexError \<and> run s = Some (IndexError, s)"
    if "253 < PC s"
    using that bound fails by auto
  then show ?thesis
    using bound fails fetch_Inr_iff [of s] by auto
qed

theorem fetch_reads_three_bytes_witness:
  "(\<exists>r. fetch (CPU_init\<lparr>PC := 253\<rparr>) = Inr r) \<and>
   (\<exists>r. fetch (CPU_init\<lparr>PC := - 256\<rparr>) = Inr r) \<and>
   fetch (CPU_init\<lparr>PC := 254\<rparr>) = Inl IndexError \<and>
   cycle (CPU_init\<lparr>PC := 254\<rparr>) = Inl IndexError \<and>
   run (CPU_init\<lparr>PC := 254\<rparr>) = Some (IndexError, CPU_init\<lparr>PC := 254\<rparr>)"
proof -
  have len: "length (ram (CPU_init\<lparr>PC := p\<rparr>)) = 256" for p
    by (simp add: CPU_init_def)
  have "\<exists>r. fetch (CPU_init\<lparr>PC := 253\<rparr>) = Inr r"
    using fetch_reads_three_bytes [OF len, of 253, THEN conjunct2, THEN conjunct2, THEN conjunct1]
    by simp
  moreover have "\<exists>r. fetch (CPU_init\<lparr>PC := - 256\<rparr>) = Inr r"
    using fetch_reads_three_bytes [OF len, of "- 256", THEN conjunct2, THEN conjunct2, THEN conjunct1]
    by simp
  moreover have "fetch (CPU_init\<lparr>PC := 254\<rparr>) = Inl IndexError \<and>
      cycle (CPU_init\<lparr>PC := 254\<rparr>) = Inl IndexError \<and>
      run (CPU_init\<lparr>PC := 254\<rparr>) = Some (IndexError, CPU_init\<lparr>PC := 254\<rparr>)"
    using fetch_reads_three_bytes [OF len, of 254, THEN conjunct2, THEN conjunct2, THEN conjunct2]
    by simp
  ultimately show ?thesis
    by simp
qed

text \<open>
  Claim C9 as stated fails for a negative program counter: the registers hold unbounded
  integers, so SUB can leave a negative value and JMP can load it into PC. The program
  LDI R0,0; LDI R1,150; SUB R0,R1; SUB R0,R1; JMP R0 reaches PC = -300, which is at most
  253, and the next fetch ends in IndexError.
\<close>

theorem negative_PC_counterexample:
  "(- 300 :: int) \<le> 253 \<and> fetch (CPU_init\<lparr>PC := - 300\<rparr>) = Inl IndexError \<and>
   bindE (load [130, 0, 0,  130, 1, 150,  161, 0, 1,  161, 0, 1,  84, 0] CPU_init)
     (\<lambda>s. Inr (map_option (\<lambda>(e, t). (e, PC t)) (run s))) = Inr (Some (IndexError, - 300))"
proof -
  have "fetch (CPU_init\<lparr>PC := - 300\<rparr>) = Inl IndexError"
    by code_simp
  moreover have "bindE (load [130, 0, 0,  130, 1, 150,  161, 0, 1,  161, 0, 1,  84, 0] CPU_init)
     (\<lambda>s. Inr (map_option (\<lambda>(e, t). (e, PC t)) (run s))) = Inr (Some (IndexError, - 300))"
    by code_simp
  ultimately show ?thesis
    by simp
qed

subsection \<open>What a pass does for each instruction\<close>

lemma table_entries:
  "binary_operation 69 = Some ''PUSH''" "binary_operation 70 = Some ''POP''"
  "binary_operation 80 = Some ''CALL''" "binary_operation 17 = Some ''RET''"
  "binary_operation 85 = Some ''JEQ''" "binary_operation 86 = Some ''JNE''"
  "instructions ''PUSH'' = Some PUSH" "instructions ''POP'' = Some POP"
  "instructions ''CALL'' = Some CALL" "instructions ''RET'' = Some RET"
  "instructions ''JEQ'' = Some JEQ" "instructions ''JNE'' = Some JNE"
  by (simp_all add: binary_operation_def instructions_def)

lemma cycle_CALL: "fetch t = Inr (80, s) \<Longrightarrow> cycle t = CALL s"
  by (cases "CALL s") (simp_all add: cycle_dispatch [where name = "''CALL''"] table_entries decode_table move_PC_def)

lemma cycle_RET: "fetch t = Inr (17, s) \<Longrightarrow> cycle t = RET s"
  by (cases "RET s") (simp_all add: cycle_dispatch [where name = "''RET''"] table_entries decode_table move_PC_def)

lemma cycle_JEQ: "fetch t = Inr (85, s) \<Longrightarrow> cycle t = JEQ s"
  by (cases "JEQ s") (simp_all add: cycle_dispatch [where name = "''JEQ''"] table_entries decode_table move_PC_def)

lemma cycle_JNE: "fetch t = Inr (86, s) \<Longrightarrow> cycle t = JNE s"
  by (cases "JNE s") (simp_all add: cycle_dispatch [where name = "''JNE''"] table_entries decode_table move_PC_def)

lemma cycle_PUSH:
  "fetch t = Inr (69, s) \<Longrightarrow> cycle t = bindE (PUSH s) (\<lambda>s2. Inr (s2\<lparr>PC := PC s2 + 2\<rparr>))"
  by (simp add: cycle_dispatch [where name = "''PUSH''"] table_entries decode_table move_PC_def)

lemma cycle_POP:
  "fetch t = Inr (70, s) \<Longrightarrow> cycle t = bindE (POP s) (\<lambda>s2. Inr (s2\<lparr>PC := PC s2 + 2\<rparr>))"
  by (simp add: cycle_dispatch [where name = "''POP''"] table_entries decode_table move_PC_def)

lemma cycle_CMP:
  "fetch t = Inr (167, s) \<Longrightarrow>
   cycle t = bindE (ALU 167 (operand_a s) (operand_b s) s) (\<lambda>s2. Inr (s2\<lparr>PC := PC s2 + 3\<rparr>))"
  by (simp add: cycle_ALU decode_table move_PC_def)

text \<open>
  Claim C10. CMP prints the flags value it has just stored, through the ALU and
  therefore in every pass that executes CMP; 167 is no key of the dispatch table, so
  this output does not come from PRINT.
\<close>

theorem CMP_prints_flags:
  assumes "getitem (reg s) (operand_a s) = Inr a" and "getitem (reg s) (operand_b s) = Inr b"
  shows "(\<exists>s'. ALU 167 ra rb s = Inr s' \<and> stdout s' = stdout s @ [Print_int (FL s')]) \<and>
         (\<forall>t. fetch t = Inr (167, s) \<longrightarrow>
            (\<exists>s2. cycle t = Inr s2 \<and> stdout s2 = stdout t @ [Print_int (FL s2)])) \<and>
         binary_operation 167 = None"
proof -
  have alu: "\<exists>s'. ALU 167 ra rb s = Inr s' \<and> stdout s' = stdout s @ [Print_int (FL s')]" for ra rb
    using assms by (simp add: ALU_def math_ops Let_def)
  have "\<exists>s2. cycle t = Inr s2 \<and> stdout s2 = stdout t @ [Print_int (FL s2)]"
    if f: "fetch t = Inr (167, s)" for t
  proof -
    from alu obtain s' where s': "ALU 167 (operand_a s) (operand_b s) s = Inr s'"
      "stdout s' = stdout s @ [Print_int (FL s')]"
      by blast
    have "stdout s = stdout t"
      using fetch_frame [OF f] by simp
    then show ?thesis
      using s' by (simp add: cycle_CMP [OF f])
  qed
  moreover have "binary_operation 167 = None"
    by (simp add: binary_operation_def)
  ultimately show ?thesis
    using alu by blast
qed

theorem CMP_prints_flags_witness:
  "(\<exists>s'. ALU 167 0 0 (CPU_init\<lparr>ram := 167 # replicate 255 0, MAR := Some 2, MDR := Some 0\<rparr>) =
       Inr s' \<and> stdout s' = [Print_int (FL s')]) \<and>
   (\<exists>s2. cycle (CPU_init\<lparr>ram := 167 # replicate 255 0\<rparr>) = Inr s2 \<and>
      stdout s2 = [Print_int (FL s2)]) \<and>
   bindE (load [167, 0, 0, 1] CPU_init) (\<lambda>s. Inr (map_option (\<lambda>(e, t). stdout t) (run s))) =
     Inr (Some [Print_int 1])"
proof -
  let ?t = "CPU_init\<lparr>ram := 167 # replicate 255 0\<rparr>"
  let ?s = "CPU_init\<lparr>ram := 167 # replicate 255 0, MAR := Some 2, MDR := Some 0\<rparr>"
  have f: "fetch ?t = Inr (167, ?s)"
    by code_simp
  have a: "getitem (reg ?s) (operand_a ?s) = Inr 0" and b: "getitem (reg ?s) (operand_b ?s) = Inr 0"
    by (simp_all add: CPU_init_def getitem_def norm_index_def)
  have e: "stdout ?s = []" "stdout ?t = []"
    by (simp_all add: CPU_init_def)
  have "bindE (load [167, 0, 0, 1] CPU_init)
      (\<lambda>s. Inr (map_option (\<lambda>(e, t). stdout t) (run s))) = Inr (Some [Print_int 1])"
    by code_simp
  then show ?thesis
    using CMP_prints_flags [OF a b, of 0 0] f e by auto
qed

subsection \<open>The stack\<close>

lemma stack_slot:
  assumes "length m = 256" and "- 255 \<le> sp" and "sp \<le> 256"
  shows "\<exists>k. norm_index m (sp - 1) = Some k"
  using assms by (simp add: norm_index_Some_iff)

lemma PUSH_POP_explicit:
  assumes r8: "length (reg s) = 8" and m: "length (ram s) = 256"
    and sp: "getitem (reg s) SP = Inr sp" and lo: "- 255 \<le> sp" and hi: "sp \<le> 256"
    and v: "getitem (reg s) (operand_a s) = Inr v"
  shows "\<exists>s1. PUSH s = Inr s1 \<and> PC s1 = PC s \<and> operand_a s1 = operand_a s \<and>
           (\<forall>u. reg u = reg s1 \<and> getitem (ram u) (sp - 1) = getitem (ram s1) (sp - 1) \<and>
                operand_a u = operand_a s \<longrightarrow> POP u = Inr (u\<lparr>reg := reg s\<rparr>))"
proof -
  from v obtain j where j: "norm_index (reg s) (operand_a s) = Some j"
    by (auto simp: getitem_Inr_iff)
  have j8: "j < 8"
    using norm_index_less [OF j] r8 by simp
  have n7: "norm_index (reg s) SP = Some 7"
    using r8 by (rule norm_index_SP)
  have sp7: "reg s ! 7 = sp"
    using sp n7 by (simp add: getitem_def)
  obtain k where k: "norm_index (ram s) (sp - 1) = Some k"
    using stack_slot [OF m lo hi] by blast
  have k256: "k < length (ram s)"
    using k by (rule norm_index_less)
  define r1 where "r1 = (reg s)[7 := sp - 1]"
  define w where "w = (if j = 7 then sp - 1 else reg s ! j)"
  define m1 where "m1 = (ram s)[k := w]"
  define s1 where "s1 = s\<lparr>reg := r1, ram := m1\<rparr>"
  have g1: "getitem r1 (operand_a s) = Inr w"
    unfolding r1_def w_def using r8 j by (simp add: getitem_update)
  have g2: "getitem r1 SP = Inr (sp - 1)"
    unfolding r1_def using r8 n7 by (simp add: getitem_update)
  have push: "PUSH s = Inr s1"
    unfolding PUSH_def s1_def
    by (simp add: sp setitem_at [OF n7] r1_def [symmetric] g1 g2 setitem_at [OF k]
        m1_def [symmetric])
  have n1: "norm_index r1 i = norm_index (reg s) i" for i
    unfolding r1_def by (rule norm_index_update)
  have g3: "getitem m1 (sp - 1) = Inr w"
    unfolding m1_def using k256 k by (simp add: getitem_update)
  have g4: "getitem (r1[j := w]) SP = Inr (sp - 1)"
    using r8 n7 by (simp add: getitem_def norm_index_update r1_def w_def)
  have restore: "r1[j := w, 7 := sp] = reg s"
    using r8 j8 sp7 by (auto simp add: list_eq_iff_nth_eq nth_list_update r1_def w_def)
  have pop: "POP u = Inr (u\<lparr>reg := reg s\<rparr>)"
    if "reg u = r1" and "getitem (ram u) (sp - 1) = Inr w" and "operand_a u = operand_a s" for u
    unfolding POP_def
    by (simp add: that g2 Let_def setitem_at n1 j g4 n7 norm_index_update restore)
  show ?thesis
    using push pop g3 by (simp add: s1_def)
qed

text \<open>
  Claim C6. With the stack pointer \<open>sp\<close> in bounds (every \<open>sp\<close> from 0 to 255 is
  covered: the hypotheses ask only that \<open>sp - 1\<close>, where PUSH writes, is a subscript
  Python accepts for 256 cells), PUSH of the register named by the operand followed at
  once by POP into the same register leaves that register with its value \<open>v\<close> and the
  stack pointer with \<open>sp\<close>. This holds for the stack-pointer register itself too.
\<close>

theorem PUSH_POP_roundtrip:
  assumes "length (reg s) = 8" and "length (ram s) = 256"
    and "getitem (reg s) SP = Inr sp" and "- 255 \<le> sp" and "sp \<le> 256"
    and "getitem (reg s) (operand_a s) = Inr v"
  shows "\<exists>s1 s2. PUSH s = Inr s1 \<and> operand_a s1 = operand_a s \<and> POP s1 = Inr s2 \<and>
           getitem (reg s2) (operand_a s) = Inr v \<and> getitem (reg s2) SP = Inr sp"
proof -
  from PUSH_POP_explicit [OF assms] obtain s1 where "PUSH s = Inr s1"
    and "operand_a s1 = operand_a s" and "POP s1 = Inr (s1\<lparr>reg := reg s\<rparr>)"
    by blast
  then show ?thesis
    using assms(3,6) by simp
qed

theorem PUSH_POP_roundtrip_witness:
  "\<exists>s1 s2. PUSH (CPU_init\<lparr>reg := [42, 0, 0, 0, 0, 0, 0, 244]\<rparr>) = Inr s1 \<and>
     operand_a s1 = 0 \<and> POP s1 = Inr s2 \<and>
     getitem (reg s2) 0 = Inr 42 \<and> getitem (reg s2) SP = Inr 244"
proof -
  let ?s = "CPU_init\<lparr>reg := [42, 0, 0, 0, 0, 0, 0, 244]\<rparr>"
  have "length (reg ?s) = 8" and "length (ram ?s) = 256"
    and "getitem (reg ?s) SP = Inr 244" and "- 255 \<le> (244 :: int)" and "(244 :: int) \<le> 256"
    and "getitem (reg ?s) (operand_a ?s) = Inr 42"
    by (simp_all add: CPU_init_def getitem_def norm_index_def SP_def)
  from PUSH_POP_roundtrip [OF this] show ?thesis
    by (simp add: CPU_init_def)
qed

text \<open>
  The same through the loop: a pass that fetches PUSH and the next pass, when it fetches
  POP with the same operand, leave the registers as they were and PC four bytes on.
\<close>

lemma PUSH_POP_passes:
  assumes "length (reg s) = 8" and "length (ram s) = 256"
    and "getitem (reg s) SP = Inr sp" and "- 255 \<le> sp" and "sp \<le> 256"
    and "getitem (reg s) (operand_a s) = Inr v"
    and f1: "fetch t = Inr (69, s)"
  shows "\<exists>t1. cycle t = Inr t1 \<and>
           (\<forall>u. fetch t1 = Inr (70, u) \<and> operand_a u = operand_a s \<longrightarrow>
              cycle t1 = Inr (u\<lparr>reg := reg s, PC := PC t + 4\<rparr>))"
proof -
  from PUSH_POP_explicit [OF assms(1-6)] obtain s1 where push: "PUSH s = Inr s1"
    and pc: "PC s1 = PC s"
    and pop: "\<And>u. reg u = reg s1 \<Longrightarrow> getitem (ram u) (sp - 1) = getitem (ram s1) (sp - 1) \<Longrightarrow>
      operand_a u = operand_a s \<Longrightarrow> POP u = Inr (u\<lparr>reg := reg s\<rparr>)"
    by blast
  let ?t1 = "s1\<lparr>PC := PC s1 + 2\<rparr>"
  have c1: "cycle t = Inr ?t1"
    by (simp add: cycle_PUSH [OF f1] push)
  have "cycle ?t1 = Inr (u\<lparr>reg := reg s, PC := PC t + 4\<rparr>)"
    if f2: "fetch ?t1 = Inr (70, u)" and a: "operand_a u = operand_a s" for u
  proof -
    have fr: "reg u = reg s1" "ram u = ram s1" "PC u = PC s1 + 2"
      using fetch_frame [OF f2] by simp_all
    have "PC s = PC t"
      using fetch_frame [OF f1] by simp
    moreover have "cycle ?t1 = bindE (POP u) (\<lambda>s2. Inr (s2\<lparr>PC := PC s2 + 2\<rparr>))"
      by (rule cycle_POP [OF f2])
    ultimately show ?thesis
      using pop [of u] fr a pc by simp
  qed
  then show ?thesis
    using c1 by simp
qed

text \<open>
  Claim C5, as amended. The machine is one in which the operand names a register and
  the stack pointer \<open>sp\<close> before CALL has \<open>-255 \<le> sp\<close> and \<open>sp \<le> 256\<close>, so that
  \<open>sp - 1\<close>, where CALL writes, is a subscript Python accepts for 256 cells (every
  \<open>sp\<close> from 0 to 255 is covered); \<open>target\<close> is the value of the register the
  operand names. CALL leaves \<open>sp - 1\<close> in the stack-pointer register,
  \<open>PC + 2\<close> in memory at \<open>sp - 1\<close>, and in PC the value it reads from the operand's
  register after the decrement, which is \<open>target\<close> unless the operand names the stack
  pointer itself; the pass that fetched CALL adds nothing (no auto-advance). Then RET,
  on any machine \<open>u\<close> whose stack pointer is still \<open>sp - 1\<close> and whose memory still
  holds \<open>PC + 2\<close> there, sets PC to \<open>PC + 2\<close> and the stack pointer back to \<open>sp\<close>.
\<close>

theorem CALL_then_RET:
  assumes r8: "length (reg s) = 8" and m: "length (ram s) = 256"
    and sp: "getitem (reg s) SP = Inr sp" and lo: "- 255 \<le> sp" and hi: "sp \<le> 256"
    and tgt: "getitem (reg s) (operand_a s) = Inr target"
  shows "\<exists>s1. CALL s = Inr s1 \<and> length (reg s1) = 8 \<and>
           getitem (reg s1) SP = Inr (sp - 1) \<and>
           getitem (ram s1) (sp - 1) = Inr (PC s + 2) \<and>
           getitem (reg s1) (operand_a s) = Inr (PC s1) \<and>
           (norm_index (reg s) (operand_a s) \<noteq> Some 7 \<longrightarrow> PC s1 = target) \<and>
           (\<forall>t. fetch t = Inr (80, s) \<longrightarrow> cycle t = Inr s1) \<and>
           (\<forall>u. length (reg u) = 8 \<and> getitem (reg u) SP = Inr (sp - 1) \<and>
                getitem (ram u) (sp - 1) = Inr (PC s + 2) \<longrightarrow>
              (\<exists>s2. RET u = Inr s2 \<and> PC s2 = PC s + 2 \<and> getitem (reg s2) SP = Inr sp \<and>
                 (\<forall>t. fetch t = Inr (17, u) \<longrightarrow> cycle t = Inr s2)))"
proof -
  from tgt obtain j where j: "norm_index (reg s) (operand_a s) = Some j" and tj: "target = reg s ! j"
    by (auto simp: getitem_Inr_iff)
  have n7: "norm_index (reg s) SP = Some 7"
    using r8 by (rule norm_index_SP)
  obtain k where k: "norm_index (ram s) (sp - 1) = Some k"
    using stack_slot [OF m lo hi] by blast
  have k256: "k < length (ram s)"
    using k by (rule norm_index_less)
  define r1 where "r1 = (reg s)[7 := sp - 1]"
  define w where "w = (if j = 7 then sp - 1 else reg s ! j)"
  define m1 where "m1 = (ram s)[k := PC s + 2]"
  define s1 where "s1 = s\<lparr>reg := r1, ram := m1, PC := w\<rparr>"
  have g1: "getitem r1 (operand_a s) = Inr w"
    unfolding r1_def w_def using r8 j by (simp add: getitem_update)
  have g2: "getitem r1 SP = Inr (sp - 1)"
    unfolding r1_def using r8 n7 by (simp add: getitem_update)
  have g3: "getitem m1 (sp - 1) = Inr (PC s + 2)"
    unfolding m1_def using k256 k by (simp add: getitem_update)
  have call: "CALL s = Inr s1"
    unfolding CALL_def s1_def
    by (simp add: sp setitem_at [OF n7] r1_def [symmetric] g1 g2 setitem_at [OF k]
        m1_def [symmetric] Let_def)
  have ret: "\<exists>s2. RET u = Inr s2 \<and> PC s2 = PC s + 2 \<and> getitem (reg s2) SP = Inr sp \<and>
      (\<forall>t. fetch t = Inr (17, u) \<longrightarrow> cycle t = Inr s2)"
    if u8: "length (reg u) = 8" and u7: "getitem (reg u) SP = Inr (sp - 1)"
      and um: "getitem (ram u) (sp - 1) = Inr (PC s + 2)" for u
  proof -
    have un: "norm_index (reg u) SP = Some 7"
      using u8 by (rule norm_index_SP)
    have r: "RET u = Inr (u\<lparr>PC := PC s + 2, reg := (reg u)[7 := sp]\<rparr>)"
      unfolding RET_def by (simp add: u7 um setitem_at [OF un])
    have "getitem ((reg u)[7 := sp]) SP = Inr sp"
      using u8 un by (simp add: getitem_update)
    then show ?thesis
      using r by (simp add: cycle_RET)
  qed
  have "PC s1 = target" if "norm_index (reg s) (operand_a s) \<noteq> Some 7"
    using that j by (simp add: s1_def w_def tj)
  then show ?thesis
    using call g1 g2 g3 ret r8 by (simp add: s1_def r1_def cycle_CALL)
qed

theorem CALL_then_RET_witness:
  "\<exists>s1 s2. CALL (CPU_init\<lparr>reg := [24, 0, 0, 0, 0, 0, 0, 244], PC := 5\<rparr>) = Inr s1 \<and>
     getitem (reg s1) SP = Inr 243 \<and> getitem (ram s1) 243 = Inr 7 \<and> PC s1 = 24 \<and>
     RET s1 = Inr s2 \<and> PC s2 = 7 \<and> getitem (reg s2) SP = Inr 244"
proof -
  let ?s = "CPU_init\<lparr>reg := [24, 0, 0, 0, 0, 0, 0, 244], PC := 5\<rparr>"
  have "length (reg ?s) = 8" and "length (ram ?s) = 256"
    and "getitem (reg ?s) SP = Inr 244" and "- 255 \<le> (244 :: int)" and "(244 :: int) \<le> 256"
    and "getitem (reg ?s) (operand_a ?s) = Inr 24"
    by (simp_all add: CPU_init_def getitem_def norm_index_def SP_def)
  from CALL_then_RET [OF this] obtain s1 where c1: "CALL ?s = Inr s1"
    and c2: "length (reg s1) = 8" and c3: "getitem (reg s1) SP = Inr (244 - 1)"
    and c4: "getitem (ram s1) (244 - 1) = Inr (PC ?s + 2)"
    and c5: "norm_index (reg ?s) (operand_a ?s) \<noteq> Some 7 \<longrightarrow> PC s1 = 24"
    and r: "\<forall>u. length (reg u) = 8 \<and> getitem (reg u) SP = Inr (244 - 1) \<and>
        getitem (ram u) (244 - 1) = Inr (PC ?s + 2) \<longrightarrow>
        (\<exists>s2. RET u = Inr s2 \<and> PC s2 = PC ?s + 2 \<and> getitem (reg s2) SP = Inr 244 \<and>
           (\<forall>t. fetch t = Inr (17, u) \<longrightarrow> cycle t = Inr s2))"
    by blast
  from r c2 c3 c4 obtain s2 where r1: "RET s1 = Inr s2" and r2: "PC s2 = PC ?s + 2"
    and r3: "getitem (reg s2) SP = Inr 244"
    by blast
  have "PC s1 = 24"
    using c5 by (simp add: CPU_init_def norm_index_def)
  moreover have "getitem (reg s1) SP = Inr 243" and "getitem (ram s1) 243 = Inr 7" and "PC s2 = 7"
    using c3 c4 r2 by simp_all
  ultimately show ?thesis
    using c1 r1 r3 by blast
qed

text \<open>
  Claim C5 as stated, for every machine state, fails outside that range: the stack
  pointer is an unbounded integer like every register. The program LDI R7,255;
  ADD R7,R7; LDI R0,24; CALL R0 reaches CALL at address 9 with 510 in the stack
  pointer; CALL decrements it and the write to memory at 509 raises IndexError, so PC is
  never set and the run ends there. The first part is the routine on that machine.
\<close>

theorem CALL_out_of_bounds_counterexample:
  "CALL (CPU_init\<lparr>reg := [24, 0, 0, 0, 0, 0, 0, 510], PC := 9\<rparr>) = Inl IndexError \<and>
   bindE (load [130, 7, 255,  160, 7, 7,  130, 0, 24,  80, 0] CPU_init)
     (\<lambda>s. Inr (map_option (\<lambda>(e, t). (e, PC t, getitem (reg t) SP)) (run s))) =
     Inr (Some (IndexError, 9, Inr 510))"
proof -
  have "CALL (CPU_init\<lparr>reg := [24, 0, 0, 0, 0, 0, 0, 510], PC := 9\<rparr>) = Inl IndexError"
    by code_simp
  moreover have "bindE (load [130, 7, 255,  160, 7, 7,  130, 0, 24,  80, 0] CPU_init)
     (\<lambda>s. Inr (map_option (\<lambda>(e, t). (e, PC t, getitem (reg t) SP)) (run s))) =
     Inr (Some (IndexError, 9, Inr 510))"
    by code_simp
  ultimately show ?thesis
    by simp
qed

subsection \<open>Conditional jumps\<close>

lemma bindE_Inr_iff: "bindE m f = Inr y \<longleftrightarrow> (\<exists>x. m = Inr x \<and> f x = Inr y)"
  by (cases m) simp_all

lemma JEQ_result:
  "getitem (reg s) (operand_a s) = Inr target \<Longrightarrow>
   JEQ s = Inr (s\<lparr>PC := (if FL s = 1 then target else PC s + 2)\<rparr>)"
  by (simp add: JEQ_def)

lemma JNE_result:
  "getitem (reg s) (operand_a s) = Inr target \<Longrightarrow>
   JNE s = Inr (s\<lparr>PC := (if FL s = 0 then target else PC s + 2)\<rparr>)"
  by (simp add: JNE_def)

lemma routine_keeps_FL:
  assumes "instructions name = Some routine" and "routine s = Inr s'"
  shows "FL s' = FL s"
proof -
  have "routine \<in> {HALT, LOAD, PRINT, PUSH, POP, CALL, RET, JMP, JEQ, JNE}"
    using assms(1) by (auto simp: instructions_def split: if_splits)
  then show ?thesis
    using assms(2)
    by (auto simp: HALT_def LOAD_def PRINT_def PUSH_def POP_def CALL_def RET_def JMP_def
        JEQ_def JNE_def Let_def bindE_Inr_iff split: if_splits)
qed

lemma move_PC_FL: "FL (move_PC IR s) = FL s"
  by (simp add: move_PC_def)

lemma ALU_FL: "ALU op ra rb s = Inr s' \<Longrightarrow> FL s' = FL s \<or> FL s' \<in> {1, 2, 4}"
  by (auto simp: ALU_def math_ops Let_def bindE_Inr_iff split: if_splits)

lemma cycle_FL:
  assumes "cycle s = Inr s'" and "FL s \<in> {0, 1, 2, 4}"
  shows "FL s' \<in> {0, 1, 2, 4}"
proof -
  from assms(1) obtain IR s1 where f: "fetch s = Inr (IR, s1)"
    by (cases "fetch s") (auto simp: cycle_def)
  have fl1: "FL s1 = FL s"
    using fetch_frame [OF f] by simp
  consider "alu_test IR = 1" | "alu_test IR = 0"
    using alu_test_cases by blast
  then show ?thesis
  proof cases
    case 1
    then obtain s2 where "ALU IR (operand_a s1) (operand_b s1) s1 = Inr s2" and "s' = move_PC IR s2"
      using assms(1) f by (auto simp: cycle_ALU bindE_Inr_iff)
    then show ?thesis
      using ALU_FL [of IR "operand_a s1" "operand_b s1" s1 s2] fl1 assms(2)
      by (auto simp: move_PC_FL)
  next
    case 2
    then obtain name routine s2 where "instructions name = Some routine"
      and "routine s1 = Inr s2" and "s' = move_PC IR s2"
      using assms(1) f by (auto simp: cycle_def bindE_Inr_iff split: option.splits)
    then show ?thesis
      using routine_keeps_FL [of name routine s1 s2] fl1 assms(2)
      by (simp add: move_PC_FL)
  qed
qed

lemma equal_flag: "f \<in> {0, 1, 2, 4} \<Longrightarrow> bit f 0 \<longleftrightarrow> f = (1 :: int)"
  by auto

text \<open>
  The flags byte is 0 from the constructor on and 1, 2 or 4 after every CMP
  (\<open>cycle_FL\<close>). On these values JEQ, which compares the byte with 1, jumps exactly
  when the Equal bit is set; JNE, which compares the byte with 0, jumps only while no
  CMP has run yet.
\<close>

lemma JEQ_jumps_iff_Equal:
  assumes "FL s \<in> {0, 1, 2, 4}" and "getitem (reg s) (operand_a s) = Inr target"
  shows "JEQ s = Inr (s\<lparr>PC := (if bit (FL s) 0 then target else PC s + 2)\<rparr>)"
  using assms equal_flag [of "FL s"] by (simp add: JEQ_result)

text \<open>
  Claim C2 (not met by the code). The claim: JNE jumps exactly when the Equal flag is
  not set. The code: after CMP of 1 and 2 the flags byte is 4 (Less-than), the Equal
  bit is clear, and JNE does not jump but adds 2 to PC. The first part is the routine on
  that machine; the second the whole program LDI R0,1; LDI R1,2; LDI R2,19; CMP R0,R1;
  JNE R2; HLT, with PRN R0; HLT at address 19: it stops at the HLT at 14 and has
  printed only the flags value.
\<close>

theorem JNE_falls_through_on_Less_than:
  "\<not> bit (4 :: int) 0 \<and>
   JNE (CPU_init\<lparr>reg := [1, 2, 19, 0, 0, 0, 0, 244], operand_a := 2, PC := 12, FL := 4\<rparr>) =
     Inr (CPU_init\<lparr>reg := [1, 2, 19, 0, 0, 0, 0, 244], operand_a := 2, PC := 14, FL := 4\<rparr>) \<and>
   bindE (load [130, 0, 1,  130, 1, 2,  130, 2, 19,  167, 0, 1,  86, 2,  1,  0, 0, 0, 0,  71, 0,  1]
            CPU_init)
     (\<lambda>s. Inr (map_option (\<lambda>(e, t). (PC t, FL t, stdout t)) (run s))) =
     Inr (Some (14, 4, [Print_int 4]))"
proof -
  have "bindE (load [130, 0, 1,  130, 1, 2,  130, 2, 19,  167, 0, 1,  86, 2,  1,  0, 0, 0, 0,  71, 0,  1]
            CPU_init)
     (\<lambda>s. Inr (map_option (\<lambda>(e, t). (PC t, FL t, stdout t)) (run s))) =
     Inr (Some (14, 4, [Print_int 4]))"
    by code_simp
  then show ?thesis
    by (simp add: JNE_def getitem_def norm_index_def)
qed

subsection \<open>Unrecognized opcodes\<close>

lemma bindE_Inl_iff: "bindE m f = Inl e \<longleftrightarrow> m = Inl e \<or> (\<exists>x. m = Inr x \<and> f x = Inl e)"
  by (cases m) simp_all

lemma setitem_stop: "setitem xs i v = Inl e \<Longrightarrow> e = IndexError"
  by (auto simp: setitem_def split: option.splits)

lemma routine_exit_status:
  assumes "instructions name = Some routine" and "routine s = Inl (SystemExit c t)"
  shows "c = None"
proof -
  have "routine \<in> {HALT, LOAD, PRINT, PUSH, POP, CALL, RET, JMP, JEQ, JNE}"
    using assms(1) by (auto simp: instructions_def split: if_splits)
  then show ?thesis
    using assms(2)
    by (auto simp: HALT_def LOAD_def PRINT_def PUSH_def POP_def CALL_def RET_def JMP_def
        JEQ_def JNE_def Let_def bindE_Inl_iff split: if_splits
        dest: getitem_stop setitem_stop)
qed

lemma ALU_exit_status: "ALU op ra rb s \<noteq> Inl (SystemExit c t)"
  by (auto simp: ALU_def math_ops Let_def bindE_Inl_iff split: if_splits
      dest: getitem_stop setitem_stop)

text \<open>
  No pass ends in \<^verbatim>\<open>sys.exit(1)\<close>: the only exit a pass can take is the one of HALT,
  which carries no status.
\<close>

lemma cycle_exit_status:
  assumes "cycle s = Inl (SystemExit c t)"
  shows "c = None"
proof (cases "fetch s")
  case (Inl e)
  then show ?thesis
    using assms fetch_Inl [of s e] by (simp add: cycle_def)
next
  case (Inr r)
  then obtain IR s1 where f: "fetch s = Inr (IR, s1)"
    by (cases r) simp
  consider "alu_test IR = 1" | "alu_test IR = 0"
    using alu_test_cases by blast
  then show ?thesis
  proof cases
    case 1
    then show ?thesis
      using assms f ALU_exit_status by (auto simp: cycle_ALU bindE_Inl_iff)
  next
    case 2
    then show ?thesis
      using assms f routine_exit_status
      by (auto simp: cycle_def bindE_Inl_iff split: option.splits)
  qed
qed

text \<open>
  Claim C1 (not met by the code). The claim: an opcode byte that is no key of the
  dispatch table and is not sent to the ALU puts the machine into the fatal-error state,
  with a report of the opcode and of the machine state. The code: the branch that
  prints the report and exits with status 1 comes after two tests that between them
  cover every value (\<open>alu_test_cases\<close>), so it never runs (\<open>cycle_exit_status\<close>); the
  opcode is used as a dictionary key and the pass ends in KeyError (\<open>cycle_unknown\<close>).
  First the freshly constructed machine, whose memory is all zero, so that opcode 0 is
  at address 0; then a memory that starts with the byte 72.
\<close>

theorem unrecognized_opcode_raises_KeyError:
  "alu_test 0 = 0 \<and> binary_operation 0 = None \<and>
   cycle CPU_init = Inl (KeyError_opcode 0) \<and>
   run CPU_init = Some (KeyError_opcode 0, CPU_init) \<and>
   alu_test 72 = 0 \<and> binary_operation 72 = None \<and>
   cycle (CPU_init\<lparr>ram := 72 # replicate 255 0\<rparr>) = Inl (KeyError_opcode 72)"
proof -
  have "cycle CPU_init = Inl (KeyError_opcode 0)"
    by code_simp
  moreover from this have "run CPU_init = Some (KeyError_opcode 0, CPU_init)"
    by (rule run_stops)
  moreover have "alu_test 0 = 0 \<and> binary_operation 0 = None"
    by (simp add: alu_test_def binary_operation_def)
  moreover have "alu_test 72 = 0 \<and> binary_operation 72 = None \<and>
      cycle (CPU_init\<lparr>ram := 72 # replicate 255 0\<rparr>) = Inl (KeyError_opcode 72)"
    by code_simp
  ultimately show ?thesis
    by simp
qed

end
